theory Spec2Isabelle
  imports Main
begin

section \<open>The configuration loaders of AmazeIng\<close>

text \<open>
  The repository holds two loaders for the maze generator's configuration file:
  \<^verbatim>\<open>ConfigParsing\<close> in \<^verbatim>\<open>src/exception.py\<close> (tokenizer \<^verbatim>\<open>parse_line\<close> and the validating
  \<^verbatim>\<open>parse\<close>) and \<^verbatim>\<open>ConfigParser\<close> in \<^verbatim>\<open>src/config_parser.py\<close> (a plain key/value reader).
  Both are embedded below. A Python \<^verbatim>\<open>str\<close> is a \<^typ>\<open>string\<close> whose characters are the
  code points below 256; a Python \<^verbatim>\<open>int\<close> is an \<^typ>\<open>int\<close>; a raised exception is the
  \<open>Inl\<close> summand of the result.
\<close>

subsection \<open>Exceptions\<close>

text \<open>
  The three exception classes of \<^verbatim>\<open>src/exception.py\<close> that are raised (each with its
  message), and the two built-in ones that \<^verbatim>\<open>src/config_parser.py\<close> raises.
\<close>

datatype exn =
    ConfigError string
  | InvalidDimensionsError string
  | InvalidCoordinatesError string
  | ValueError string
  | FileNotFoundError string

subsection \<open>The string and integer primitives of Python that the loaders call\<close>

text \<open>
  \<^verbatim>\<open>str.isspace\<close> on one character: of the code points below 256 exactly
  9 to 13, 28 to 32, 133 and 160 are whitespace.
\<close>

definition isspace :: "char \<Rightarrow> bool" where
  "isspace c =
     (let n = (of_char c :: nat)
      in (9 \<le> n \<and> n \<le> 13) \<or> (28 \<le> n \<and> n \<le> 32) \<or> n = 133 \<or> n = 160)"

text \<open>\<^verbatim>\<open>s.strip()\<close>: the whitespace at both ends is removed.\<close>

definition strip :: "string \<Rightarrow> string" where
  "strip s = rev (dropWhile isspace (rev (dropWhile isspace s)))"

text \<open>
  \<^verbatim>\<open>s.lower()\<close>: below 256 the upper-case letters are 65 to 90 and 192 to 222
  without 215, and each has its lower-case letter 32 places higher.
\<close>

definition lower_char :: "char \<Rightarrow> char" where
  "lower_char c =
     (let n = (of_char c :: nat)
      in if (65 \<le> n \<and> n \<le> 90) \<or> (192 \<le> n \<and> n \<le> 222 \<and> n \<noteq> 215)
         then char_of (n + 32) else c)"

definition lower :: "string \<Rightarrow> string" where
  "lower s = map lower_char s"

text \<open>\<^verbatim>\<open>s.startswith(c)\<close> for a one-character prefix.\<close>

fun startswith :: "string \<Rightarrow> char \<Rightarrow> bool" where
  "startswith [] c = False"
| "startswith (x # xs) c = (x = c)"

text \<open>
  \<^verbatim>\<open>s.split(c)\<close> for a one-character separator: the pieces between the occurrences
  of \<open>c\<close>, always at least one piece.
\<close>

function split :: "string \<Rightarrow> char \<Rightarrow> string list" where
  "split s c =
     (if c \<in> set s
      then takeWhile (\<lambda>x. x \<noteq> c) s # split (tl (dropWhile (\<lambda>x. x \<noteq> c) s)) c
      else [s])"
  by pat_completeness auto
termination
proof (relation "measure (\<lambda>(s, c). length s)")
  show "wf (measure (\<lambda>(s, c). length s))" by simp
next
  fix s :: string and c :: char
  assume "c \<in> set s"
  then have "dropWhile (\<lambda>x. x \<noteq> c) s \<noteq> []" by simp
  then have "length (tl (dropWhile (\<lambda>x. x \<noteq> c) s)) < length (dropWhile (\<lambda>x. x \<noteq> c) s)"
    by simp
  also have "\<dots> \<le> length s" by (rule length_dropWhile_le)
  finally show "((tl (dropWhile (\<lambda>x. x \<noteq> c) s), c), (s, c)) \<in> measure (\<lambda>(s, c). length s)"
    by simp
qed

declare split.simps [simp del]

text \<open>\<^verbatim>\<open>s.split(c, 1)\<close>: at most one split, at the first occurrence of \<open>c\<close>.\<close>

definition split1 :: "string \<Rightarrow> char \<Rightarrow> string list" where
  "split1 s c =
     (if c \<in> set s
      then [takeWhile (\<lambda>x. x \<noteq> c) s, tl (dropWhile (\<lambda>x. x \<noteq> c) s)]
      else [s])"

text \<open>
  \<^verbatim>\<open>int(s)\<close> on a string. The interpreter removes the whitespace it knows at both
  ends (9 to 13, 32, 133 and 160: not 28 to 31), reads an optional sign, then
  decimal digits with single underscores allowed between two digits, and raises
  \<^verbatim>\<open>ValueError\<close> (here \<open>None\<close>) on anything else, and also when there are more than
  4300 digits (the interpreter's default limit on the conversion).
\<close>

definition int_space :: "char \<Rightarrow> bool" where
  "int_space c =
     (let n = (of_char c :: nat)
      in (9 \<le> n \<and> n \<le> 13) \<or> n = 32 \<or> n = 133 \<or> n = 160)"

definition isdigit :: "char \<Rightarrow> bool" where
  "isdigit c = (let n = (of_char c :: nat) in 48 \<le> n \<and> n \<le> 57)"

definition digit_val :: "char \<Rightarrow> int" where
  "digit_val c = int (of_char c) - 48"

fun digits_of :: "string \<Rightarrow> int list option" where
  "digits_of [] = None"
| "digits_of [c] = (if isdigit c then Some [digit_val c] else None)"
| "digits_of (c # d # r) =
     (if \<not> isdigit c then None
      else map_option (\<lambda>ds. digit_val c # ds)
             (if d = CHR ''_'' then digits_of r else digits_of (d # r)))"

definition max_str_digits :: nat where
  "max_str_digits = 4300"

definition unsigned_of :: "string \<Rightarrow> int option" where
  "unsigned_of s =
     (case digits_of s of
        None \<Rightarrow> None
      | Some ds \<Rightarrow>
          if length ds > max_str_digits then None
          else Some (foldl (\<lambda>a d. 10 * a + d) 0 ds))"

definition py_int :: "string \<Rightarrow> int option" where
  "py_int s =
     (case rev (dropWhile int_space (rev (dropWhile int_space s))) of
        [] \<Rightarrow> None
      | c # r \<Rightarrow>
          if c = CHR ''-'' then map_option uminus (unsigned_of r)
          else if c = CHR ''+'' then unsigned_of r
          else unsigned_of (c # r))"

text \<open>
  \<^verbatim>\<open>str(n)\<close> of an integer, as an f-string formats it, and of a pair of integers
  (\<^verbatim>\<open>(10, 5)\<close>).
\<close>

fun str_nat :: "nat \<Rightarrow> string" where
  "str_nat n =
     (if n < 10 then [char_of (48 + n)]
      else str_nat (n div 10) @ [char_of (48 + n mod 10)])"

declare str_nat.simps [simp del]

definition str_int :: "int \<Rightarrow> string" where
  "str_int i = (if i < 0 then CHR ''-'' # str_nat (nat (- i)) else str_nat (nat i))"

definition str_pair :: "int \<times> int \<Rightarrow> string" where
  "str_pair p = ''('' @ str_int (fst p) @ '', '' @ str_int (snd p) @ '')''"

text \<open>The apostrophe, which a string literal of the theory cannot end with.\<close>

definition apostrophe :: string where
  "apostrophe = [CHR 0x27]"

subsection \<open>\<^verbatim>\<open>ConfigParsing.parse_line\<close> (src/exception.py, lines 29 to 51)\<close>

text \<open>
  Unpacking \<^verbatim>\<open>key, value = line.split(sep, 1)\<close> raises \<^verbatim>\<open>ValueError\<close> unless the list has
  exactly two elements; under the guard \<^verbatim>\<open>sep in line\<close> it always has.
\<close>

definition unpack_error :: exn where
  "unpack_error = ValueError ''not enough values to unpack (expected 2, got 1)''"

definition normalize :: "string list \<Rightarrow> exn + string \<times> string" where
  "normalize parts =
     (case parts of
        [key, value] \<Rightarrow> Inr (lower (strip key), strip (hd (split value (CHR ''#''))))
      | _ \<Rightarrow> Inl unpack_error)"

definition parse_line :: "string \<Rightarrow> exn + string \<times> string" where
  "parse_line line =
     (if CHR ''='' \<in> set line then normalize (split1 line (CHR ''=''))
      else if CHR '':'' \<in> set line then normalize (split1 line (CHR '':''))
      else Inl (ConfigError
             (''Invalid line format: expected '' @ apostrophe @ ''='' @ apostrophe
               @ '' or '' @ apostrophe @ '':'' @ apostrophe)))"

subsection \<open>\<^verbatim>\<open>ConfigParsing.parse\<close> (src/exception.py, lines 53 to 181)\<close>

text \<open>The local variables of \<^verbatim>\<open>parse\<close> (lines 68 to 73); \<open>None\<close> is Python's \<^verbatim>\<open>None\<close>.\<close>

record locals =
  width :: "int option"
  height :: "int option"
  entry :: "(int \<times> int) option"
  exit_coord :: "(int \<times> int) option"
  output_file :: "string option"
  algorithm :: string

definition initial :: locals where
  "initial = \<lparr>width = None, height = None, entry = None, exit_coord = None,
               output_file = None, algorithm = ''recursive_backtracking''\<rparr>"

text \<open>The dictionary that \<^verbatim>\<open>parse\<close> returns (lines 174 to 181), one field for each key.\<close>

record maze_config =
  cfg_width :: int
  cfg_height :: int
  cfg_entry :: "int \<times> int"
  cfg_exit :: "int \<times> int"
  cfg_output_file :: string
  cfg_algorithm :: string

text \<open>
  The body of the two \<^verbatim>\<open>try\<close> blocks for coordinates (lines 107 to 108 and 116 to 117):
  \<^verbatim>\<open>x, y = value.split(","); (int(x.strip()), int(y.strip()))\<close>. Every failure in it is a
  \<^verbatim>\<open>ValueError\<close>, which the handler catches, so the failure is \<open>None\<close> here.
\<close>

definition coords :: "string \<Rightarrow> (int \<times> int) option" where
  "coords value =
     (case split value (CHR '','') of
        [x, y] \<Rightarrow>
          (case py_int (strip x) of
             None \<Rightarrow> None
           | Some a \<Rightarrow> (case py_int (strip y) of None \<Rightarrow> None | Some b \<Rightarrow> Some (a, b)))
      | _ \<Rightarrow> None)"

text \<open>The chain of \<^verbatim>\<open>if key == ...\<close> branches of the loop body (lines 89 to 127).\<close>

definition assign :: "string \<Rightarrow> string \<Rightarrow> locals \<Rightarrow> exn + locals" where
  "assign key value a =
     (if key = ''width'' then
        (case py_int value of
           None \<Rightarrow> Inl (InvalidDimensionsError ''Width must be an integer'')
         | Some n \<Rightarrow> Inr (a\<lparr>width := Some n\<rparr>))
      else if key = ''height'' then
        (case py_int value of
           None \<Rightarrow> Inl (InvalidDimensionsError ''Height must be an integer'')
         | Some n \<Rightarrow> Inr (a\<lparr>height := Some n\<rparr>))
      else if key = ''entry'' then
        (case coords value of
           None \<Rightarrow> Inl (InvalidCoordinatesError ''Entry must be in format: x,y'')
         | Some p \<Rightarrow> Inr (a\<lparr>entry := Some p\<rparr>))
      else if key = ''exit'' then
        (case coords value of
           None \<Rightarrow> Inl (InvalidCoordinatesError ''Exit must be in format: x,y'')
         | Some p \<Rightarrow> Inr (a\<lparr>exit_coord := Some p\<rparr>))
      else if key = ''output_file'' then Inr (a\<lparr>output_file := Some value\<rparr>)
      else if key = ''algorithm'' then Inr (a\<lparr>algorithm := value\<rparr>)
      else Inr a)"

text \<open>
  One round of the loop \<^verbatim>\<open>for line in file\<close> (lines 77 to 127): the line is stripped,
  skipped when it is empty or a comment, tokenized and assigned.
\<close>

definition step :: "string \<Rightarrow> locals \<Rightarrow> exn + locals" where
  "step raw a =
     (let line = strip raw
      in if line = [] \<or> startswith line (CHR ''#'') then Inr a
         else (case parse_line line of
                 Inl e \<Rightarrow> Inl e
               | Inr (key, value) \<Rightarrow> assign key value a))"

text \<open>The loop over the lines of the file; an exception ends it.\<close>

fun scan :: "string list \<Rightarrow> locals \<Rightarrow> exn + locals" where
  "scan [] a = Inr a"
| "scan (raw # rest) a = (case step raw a of Inl e \<Rightarrow> Inl e | Inr a' \<Rightarrow> scan rest a')"

text \<open>The checks after the loop and the returned dictionary (lines 132 to 181).\<close>

definition validate :: "locals \<Rightarrow> exn + maze_config" where
  "validate a =
     (case width a of
        None \<Rightarrow> Inl (InvalidDimensionsError ''Width not found in config file'')
      | Some w \<Rightarrow>
     (case height a of
        None \<Rightarrow> Inl (InvalidDimensionsError ''Height not found in config file'')
      | Some h \<Rightarrow>
     (case entry a of
        None \<Rightarrow> Inl (InvalidCoordinatesError ''Entry not found in config file'')
      | Some en \<Rightarrow>
     (case exit_coord a of
        None \<Rightarrow> Inl (InvalidCoordinatesError ''Exit not found in config file'')
      | Some ex \<Rightarrow>
     (case output_file a of
        None \<Rightarrow> Inl (InvalidDimensionsError ''Output file not found in config file'')
      | Some out \<Rightarrow>
        if w \<le> 0 then
          Inl (InvalidDimensionsError (''Width must be positive, got '' @ str_int w))
        else if h \<le> 0 then
          Inl (InvalidDimensionsError (''Height must be positive, got'' @ str_int h))
        else if w > 1000 then
          Inl (InvalidDimensionsError (''Width too large (max 1000), got '' @ str_int w))
        else if h > 1000 then
          Inl (InvalidDimensionsError (''Height too large (max 1000), got '' @ str_int h))
        else if fst en < 0 \<or> fst en \<ge> w \<or> snd en < 0 \<or> snd en \<ge> h then
          Inl (InvalidCoordinatesError
                 (''Entry '' @ str_pair en @ '' is out of bounds (0-'' @ str_int (w - 1)
                   @ '', 0-'' @ str_int (h - 1) @ '')''))
        else if fst ex < 0 \<or> fst ex \<ge> w \<or> snd ex < 0 \<or> snd ex \<ge> h then
          Inl (InvalidCoordinatesError
                 (''Exit '' @ str_pair ex @ '' is out of bounds (0-'' @ str_int (w - 1)
                   @ '', 0-'' @ str_int (h - 1) @ '')''))
        else if en = ex then
          Inl (InvalidCoordinatesError ''Entry and exit cannot be the same'')
        else Inr \<lparr>cfg_width = w, cfg_height = h, cfg_entry = en, cfg_exit = ex,
                  cfg_output_file = out, cfg_algorithm = algorithm a\<rparr>)))))"

text \<open>
  The file system is a map from a path to the lines that iterating the opened file
  yields; a path outside its domain makes \<^verbatim>\<open>open\<close> raise \<^verbatim>\<open>FileNotFoundError\<close>, which
  \<^verbatim>\<open>parse\<close> turns into a \<^verbatim>\<open>ConfigError\<close> (lines 129 to 130). Every other exception of
  the loop leaves \<^verbatim>\<open>parse\<close> as it is.
\<close>

type_synonym files = "string \<rightharpoonup> string list"

definition parse :: "files \<Rightarrow> string \<Rightarrow> exn + maze_config" where
  "parse fs filename =
     (case fs filename of
        None \<Rightarrow>
          Inl (ConfigError
                 (''Config file '' @ apostrophe @ filename @ apostrophe @ '' not found''))
      | Some file \<Rightarrow>
          (case scan file initial of Inl e \<Rightarrow> Inl e | Inr a \<Rightarrow> validate a))"

subsection \<open>\<^verbatim>\<open>ConfigParser\<close> (src/config_parser.py, lines 4 to 29)\<close>

text \<open>
  A \<^verbatim>\<open>ConfigParser\<close> object has two attributes; \<^verbatim>\<open>__init__\<close> sets the dictionary to
  the empty one, and nothing else in the class resets it.
\<close>

record config_parser =
  filepath :: string
  config :: "string \<rightharpoonup> string"

definition ConfigParser_init :: "string \<Rightarrow> config_parser" where
  "ConfigParser_init path = \<lparr>filepath = path, config = Map.empty\<rparr>"

text \<open>One round of the loop of \<^verbatim>\<open>ConfigParser.parse\<close> (lines 14 to 24), on the dictionary.\<close>

definition cp_line :: "string \<Rightarrow> (string \<rightharpoonup> string) \<Rightarrow> exn + (string \<rightharpoonup> string)" where
  "cp_line raw c =
     (let line = strip raw
      in if line = [] \<or> startswith line (CHR ''#'') then Inr c
         else if CHR ''='' \<notin> set line then Inl (ValueError (''Invalid line: '' @ line))
         else (case split1 line (CHR ''='') of
                 [key, value] \<Rightarrow> Inr (c(strip key \<mapsto> strip value))
               | _ \<Rightarrow> Inl unpack_error))"

text \<open>
  The loop writes into \<^verbatim>\<open>self.config\<close> as it goes, so the dictionary reached when an
  exception ends the loop stays in the object: the loop returns it beside the
  exception.
\<close>

fun cp_loop :: "string list \<Rightarrow> (string \<rightharpoonup> string) \<Rightarrow> exn option \<times> (string \<rightharpoonup> string)" where
  "cp_loop [] c = (None, c)"
| "cp_loop (raw # rest) c =
     (case cp_line raw c of Inl e \<Rightarrow> (Some e, c) | Inr c' \<Rightarrow> cp_loop rest c')"

text \<open>
  \<^verbatim>\<open>ConfigParser.parse\<close>: the result (the dictionary, or the exception) and the object
  after the call.
\<close>

definition ConfigParser_parse ::
  "files \<Rightarrow> config_parser \<Rightarrow> (exn + (string \<rightharpoonup> string)) \<times> config_parser" where
  "ConfigParser_parse fs self =
     (case fs (filepath self) of
        None \<Rightarrow> (Inl (FileNotFoundError (''Config file not found: '' @ filepath self)), self)
      | Some file \<Rightarrow>
          (case cp_loop file (config self) of
             (Some e, c) \<Rightarrow> (Inl e, self\<lparr>config := c\<rparr>)
           | (None, c) \<Rightarrow> (Inr c, self\<lparr>config := c\<rparr>)))"

subsection \<open>What a file sets\<close>

text \<open>
  The specification speaks of the value that the data lines of a file set for a key,
  the last occurrence winning. These definitions follow its words (sections 4.1 and
  4.2), to state the claims about \<^const>\<open>parse\<close> on the content of a file; they are
  compared with the loop of the source in the lemmas below.
\<close>

text \<open>The key and value of a data line; \<open>None\<close> for a blank, comment or separator-less line.\<close>

definition data_kv :: "string \<Rightarrow> (string \<times> string) option" where
  "data_kv raw =
     (let line = strip raw
      in if line = [] \<or> startswith line (CHR ''#'') then None
         else (case parse_line line of Inl e \<Rightarrow> None | Inr kv \<Rightarrow> Some kv))"

text \<open>The value that one line sets for the given key, if it is a data line with that key.\<close>

definition line_value :: "string \<Rightarrow> string \<Rightarrow> string option" where
  "line_value raw key =
     (case data_kv raw of
        None \<Rightarrow> None
      | Some (k, v) \<Rightarrow> if k = key then Some v else None)"

text \<open>The value of the last data line of the file with the given key.\<close>

fun last_value :: "string list \<Rightarrow> string \<Rightarrow> string option" where
  "last_value [] key = None"
| "last_value (raw # rest) key =
     (case last_value rest key of
        Some v \<Rightarrow> Some v
      | None \<Rightarrow> line_value raw key)"

text \<open>The integer, or the pair, that the file sets for a key.\<close>

definition sets_int :: "string list \<Rightarrow> string \<Rightarrow> int option" where
  "sets_int file key = (case last_value file key of None \<Rightarrow> None | Some v \<Rightarrow> py_int v)"

definition sets_pair :: "string list \<Rightarrow> string \<Rightarrow> (int \<times> int) option" where
  "sets_pair file key = (case last_value file key of None \<Rightarrow> None | Some v \<Rightarrow> coords v)"

text \<open>
  A file is well formed when every line of it is read without an exception: each data
  line has a separator, and each value of a recognized key has the form of its key.
\<close>

definition well_formed :: "string list \<Rightarrow> bool" where
  "well_formed file = (case scan file initial of Inl e \<Rightarrow> False | Inr a \<Rightarrow> True)"

text \<open>
  The local variables after the loop, as the specification's accumulator describes
  them: each field holds what the file sets for its key, and the algorithm has its
  default when no line sets it.
\<close>

definition accumulated :: "string list \<Rightarrow> locals" where
  "accumulated file =
     \<lparr>width = sets_int file ''width'', height = sets_int file ''height'',
      entry = sets_pair file ''entry'', exit_coord = sets_pair file ''exit'',
      output_file = last_value file ''output_file'',
      algorithm = (case last_value file ''algorithm'' of
                     None \<Rightarrow> ''recursive_backtracking'' | Some v \<Rightarrow> v)\<rparr>"

text \<open>A line that \<^verbatim>\<open>ConfigParser.parse\<close> does not skip and that has no equals sign.\<close>

definition no_equals :: "string \<Rightarrow> bool" where
  "no_equals raw =
     (let line = strip raw
      in line \<noteq> [] \<and> \<not> startswith line (CHR ''#'') \<and> CHR ''='' \<notin> set line)"

subsection \<open>Well-formedness by the text of the file\<close>





subsection \<open>What \<^verbatim>\<open>ConfigParser\<close> stores\<close>



subsection \<open>Example files\<close>

text \<open>The file of the specification's first concrete scenario, and variants of it.\<close>

definition scenario :: "string list" where
  "scenario = [''width = 10'', ''height = 10'', ''entry = 0,0'', ''exit = 9,9'',
               ''output_file = out.txt'']"


definition missing_two :: "string list" where
  "missing_two = [''width = 10'', ''entry = 0,0'', ''output_file = out.txt'']"

definition comments_only :: "string list" where
  "comments_only = [''# nothing is set here'', [], ''   '', ''  # nor here'']"

definition no_output_file :: "string list" where
  "no_output_file = [''width = 10'', ''height = 10'', ''entry = 0,0'', ''exit = 9,9'']"

definition widest :: "string list" where
  "widest = [''width = 1000'', ''height = 1'', ''entry = 0,0'', ''exit = 999,0'',
             ''output_file = out.txt'']"

definition too_wide :: "string list" where
  "too_wide = [''width = 1001'', ''height = 10'', ''entry = 0,0'', ''exit = 9,9'',
               ''output_file = out.txt'']"

definition entry_outside :: "string list" where
  "entry_outside = [''width = 10'', ''height = 10'', ''entry = 10,5'', ''exit = 9,9'',
                    ''output_file = out.txt'']"

definition same_cell :: "string list" where
  "same_cell = [''width = 10'', ''height = 10'', ''entry = 3,4'', ''exit = 3, 4'',
                ''output_file = out.txt'']"

definition same_cell_no_width :: "string list" where
  "same_cell_no_width = [''height = 10'', ''entry = 3,4'', ''exit = 3,4'',
                         ''output_file = out.txt'']"

definition same_cell_outside :: "string list" where
  "same_cell_outside = [''width = 3'', ''height = 3'', ''entry = 5,5'', ''exit = 5,5'',
                        ''output_file = out.txt'']"

definition empty_output_file :: "string list" where
  "empty_output_file = [''width = 10'', ''height = 10'', ''entry = 0,0'', ''exit = 9,9'',
                        ''output_file =   # none'']"



section \<open>Properties\<close>

subsection \<open>Splitting\<close>

lemma takeWhile_first: "c \<notin> set k \<Longrightarrow> takeWhile (\<lambda>x. x \<noteq> c) (k @ c # v) = k"
  by (induction k) auto

lemma dropWhile_first: "c \<notin> set k \<Longrightarrow> dropWhile (\<lambda>x. x \<noteq> c) (k @ c # v) = c # v"
  by (induction k) auto

lemma takeWhile_absent: "c \<notin> set s \<Longrightarrow> takeWhile (\<lambda>x. x \<noteq> c) s = s"
  by (induction s) auto

lemma hd_split: "hd (split s c) = takeWhile (\<lambda>x. x \<noteq> c) s"
  by (subst split.simps) (simp add: takeWhile_absent)

lemma split1_at_first: "c \<notin> set k \<Longrightarrow> split1 (k @ c # v) c = [k, v]"
  by (simp add: split1_def takeWhile_first dropWhile_first)

lemma normalize_two:
  "normalize [k, v] = Inr (lower (strip k), strip (takeWhile (\<lambda>x. x \<noteq> CHR ''#'') v))"
  by (simp add: normalize_def hd_split)

subsection \<open>The loop of \<^verbatim>\<open>ConfigParsing.parse\<close> computes what the file sets\<close>

lemma assign_fields:
  assumes "assign k v a = Inr a'"
  shows "width a' = (if k = ''width'' then py_int v else width a)"
    and "height a' = (if k = ''height'' then py_int v else height a)"
    and "entry a' = (if k = ''entry'' then coords v else entry a)"
    and "exit_coord a' = (if k = ''exit'' then coords v else exit_coord a)"
    and "output_file a' = (if k = ''output_file'' then Some v else output_file a)"
    and "algorithm a' = (if k = ''algorithm'' then v else algorithm a)"
  using assms by (auto simp: assign_def split: if_splits option.splits)

lemma step_cases:
  assumes "step raw a = Inr a'"
  shows "(data_kv raw = None \<and> a' = a)
       \<or> (\<exists>k v. data_kv raw = Some (k, v) \<and> assign k v a = Inr a')"
  using assms by (auto simp: step_def data_kv_def Let_def split: if_splits sum.splits)

lemma step_fields:
  assumes "step raw a = Inr a'"
  shows "width a' = (case line_value raw ''width'' of None \<Rightarrow> width a | Some v \<Rightarrow> py_int v)"
    and "height a' = (case line_value raw ''height'' of None \<Rightarrow> height a | Some v \<Rightarrow> py_int v)"
    and "entry a' = (case line_value raw ''entry'' of None \<Rightarrow> entry a | Some v \<Rightarrow> coords v)"
    and "exit_coord a' =
           (case line_value raw ''exit'' of None \<Rightarrow> exit_coord a | Some v \<Rightarrow> coords v)"
    and "output_file a' =
           (case line_value raw ''output_file'' of None \<Rightarrow> output_file a | Some v \<Rightarrow> Some v)"
    and "algorithm a' = (case line_value raw ''algorithm'' of None \<Rightarrow> algorithm a | Some v \<Rightarrow> v)"
  using step_cases [OF assms] by (auto simp: line_value_def dest: assign_fields)

lemma scan_Cons:
  assumes "scan (raw # rest) a0 = Inr a"
  obtains a1 where "step raw a0 = Inr a1" and "scan rest a1 = Inr a"
  using assms by (auto split: sum.splits)

lemma scan_fields:
  assumes "scan lines a0 = Inr a"
  shows "width a = (case last_value lines ''width'' of None \<Rightarrow> width a0 | Some v \<Rightarrow> py_int v)"
    and "height a = (case last_value lines ''height'' of None \<Rightarrow> height a0 | Some v \<Rightarrow> py_int v)"
    and "entry a = (case last_value lines ''entry'' of None \<Rightarrow> entry a0 | Some v \<Rightarrow> coords v)"
    and "exit_coord a =
           (case last_value lines ''exit'' of None \<Rightarrow> exit_coord a0 | Some v \<Rightarrow> coords v)"
    and "output_file a =
           (case last_value lines ''output_file'' of None \<Rightarrow> output_file a0 | Some v \<Rightarrow> Some v)"
    and "algorithm a =
           (case last_value lines ''algorithm'' of None \<Rightarrow> algorithm a0 | Some v \<Rightarrow> v)"
  using assms
proof (induction lines arbitrary: a0)
  case Nil
  { case 1 then show ?case by simp }
  { case 2 then show ?case by simp }
  { case 3 then show ?case by simp }
  { case 4 then show ?case by simp }
  { case 5 then show ?case by simp }
  { case 6 then show ?case by simp }
next
  case (Cons raw rest)
  { case 1
    then obtain a1 where s: "step raw a0 = Inr a1" and r: "scan rest a1 = Inr a"
      by (rule scan_Cons)
    show ?case
      using Cons.IH(1) [OF r] step_fields(1) [OF s]
      by (cases "last_value rest ''width''") simp_all }
  { case 2
    then obtain a1 where s: "step raw a0 = Inr a1" and r: "scan rest a1 = Inr a"
      by (rule scan_Cons)
    show ?case
      using Cons.IH(2) [OF r] step_fields(2) [OF s]
      by (cases "last_value rest ''height''") simp_all }
  { case 3
    then obtain a1 where s: "step raw a0 = Inr a1" and r: "scan rest a1 = Inr a"
      by (rule scan_Cons)
    show ?case
      using Cons.IH(3) [OF r] step_fields(3) [OF s]
      by (cases "last_value rest ''entry''") simp_all }
  { case 4
    then obtain a1 where s: "step raw a0 = Inr a1" and r: "scan rest a1 = Inr a"
      by (rule scan_Cons)
    show ?case
      using Cons.IH(4) [OF r] step_fields(4) [OF s]
      by (cases "last_value rest ''exit''") simp_all }
  { case 5
    then obtain a1 where s: "step raw a0 = Inr a1" and r: "scan rest a1 = Inr a"
      by (rule scan_Cons)
    show ?case
      using Cons.IH(5) [OF r] step_fields(5) [OF s]
      by (cases "last_value rest ''output_file''") simp_all }
  { case 6
    then obtain a1 where s: "step raw a0 = Inr a1" and r: "scan rest a1 = Inr a"
      by (rule scan_Cons)
    show ?case
      using Cons.IH(6) [OF r] step_fields(6) [OF s]
      by (cases "last_value rest ''algorithm''") simp_all }
qed

lemma scan_accumulated:
  assumes "scan lines initial = Inr a"
  shows "a = accumulated lines"
proof -
  note f = scan_fields [OF assms]
  have "width a = width (accumulated lines)"
    using f(1) by (simp add: accumulated_def sets_int_def initial_def split: option.splits)
  moreover have "height a = height (accumulated lines)"
    using f(2) by (simp add: accumulated_def sets_int_def initial_def split: option.splits)
  moreover have "entry a = entry (accumulated lines)"
    using f(3) by (simp add: accumulated_def sets_pair_def initial_def split: option.splits)
  moreover have "exit_coord a = exit_coord (accumulated lines)"
    using f(4) by (simp add: accumulated_def sets_pair_def initial_def split: option.splits)
  moreover have "output_file a = output_file (accumulated lines)"
    using f(5) by (simp add: accumulated_def initial_def split: option.splits)
  moreover have "algorithm a = algorithm (accumulated lines)"
    using f(6) by (simp add: accumulated_def initial_def split: option.splits)
  ultimately show ?thesis by simp
qed

lemma parse_well_formed:
  assumes "fs filename = Some lines" and "well_formed lines"
  shows "parse fs filename = validate (accumulated lines)"
proof -
  from assms(2) obtain a where a: "scan lines initial = Inr a"
    by (auto simp: well_formed_def split: sum.splits)
  then have "a = accumulated lines" by (rule scan_accumulated)
  with a assms(1) show ?thesis by (simp add: parse_def)
qed

lemma parse_ill_formed:
  assumes "fs filename = Some lines" and "\<not> well_formed lines"
  shows "\<exists>e. parse fs filename = Inl e"
  using assms by (auto simp: parse_def well_formed_def split: sum.splits)

subsection \<open>In a well-formed file every recognized value has the form of its key\<close>

lemma assign_ok:
  assumes "assign k v a = Inr a'"
  shows "k = ''width'' \<Longrightarrow> py_int v \<noteq> None"
    and "k = ''height'' \<Longrightarrow> py_int v \<noteq> None"
    and "k = ''entry'' \<Longrightarrow> coords v \<noteq> None"
    and "k = ''exit'' \<Longrightarrow> coords v \<noteq> None"
  using assms by (auto simp: assign_def split: option.splits)

lemma step_ok:
  assumes "step raw a = Inr a'"
  shows "line_value raw ''width'' = Some v \<Longrightarrow> py_int v \<noteq> None"
    and "line_value raw ''height'' = Some v \<Longrightarrow> py_int v \<noteq> None"
    and "line_value raw ''entry'' = Some v \<Longrightarrow> coords v \<noteq> None"
    and "line_value raw ''exit'' = Some v \<Longrightarrow> coords v \<noteq> None"
  using step_cases [OF assms]
  by (auto simp: line_value_def split: if_splits dest: assign_ok)

lemma scan_ok:
  assumes "scan lines a0 = Inr a"
  shows "last_value lines ''width'' = Some v \<Longrightarrow> py_int v \<noteq> None"
    and "last_value lines ''height'' = Some v \<Longrightarrow> py_int v \<noteq> None"
    and "last_value lines ''entry'' = Some v \<Longrightarrow> coords v \<noteq> None"
    and "last_value lines ''exit'' = Some v \<Longrightarrow> coords v \<noteq> None"
  using assms
proof (induction lines arbitrary: a0)
  case Nil
  { case 1 then show ?case by simp }
  { case 2 then show ?case by simp }
  { case 3 then show ?case by simp }
  { case 4 then show ?case by simp }
next
  case (Cons raw rest)
  { case 1
    from \<open>scan (raw # rest) a0 = Inr a\<close>
    obtain a1 where s: "step raw a0 = Inr a1" and r: "scan rest a1 = Inr a"
      by (rule scan_Cons)
    from 1(1) show ?case
      using Cons.IH(1) [OF _ r] step_ok(1) [OF s]
      by (cases "last_value rest ''width''") simp_all }
  { case 2
    from \<open>scan (raw # rest) a0 = Inr a\<close>
    obtain a1 where s: "step raw a0 = Inr a1" and r: "scan rest a1 = Inr a"
      by (rule scan_Cons)
    from 2(1) show ?case
      using Cons.IH(2) [OF _ r] step_ok(2) [OF s]
      by (cases "last_value rest ''height''") simp_all }
  { case 3
    from \<open>scan (raw # rest) a0 = Inr a\<close>
    obtain a1 where s: "step raw a0 = Inr a1" and r: "scan rest a1 = Inr a"
      by (rule scan_Cons)
    from 3(1) show ?case
      using Cons.IH(3) [OF _ r] step_ok(3) [OF s]
      by (cases "last_value rest ''entry''") simp_all }
  { case 4
    from \<open>scan (raw # rest) a0 = Inr a\<close>
    obtain a1 where s: "step raw a0 = Inr a1" and r: "scan rest a1 = Inr a"
      by (rule scan_Cons)
    from 4(1) show ?case
      using Cons.IH(4) [OF _ r] step_ok(4) [OF s]
      by (cases "last_value rest ''exit''") simp_all }
qed

lemma well_formed_unset:
  assumes "well_formed lines"
  shows "sets_int lines ''width'' = None \<longleftrightarrow> last_value lines ''width'' = None"
    and "sets_int lines ''height'' = None \<longleftrightarrow> last_value lines ''height'' = None"
    and "sets_pair lines ''entry'' = None \<longleftrightarrow> last_value lines ''entry'' = None"
    and "sets_pair lines ''exit'' = None \<longleftrightarrow> last_value lines ''exit'' = None"
proof -
  from assms obtain a where a: "scan lines initial = Inr a"
    by (auto simp: well_formed_def split: sum.splits)
  show "sets_int lines ''width'' = None \<longleftrightarrow> last_value lines ''width'' = None"
    using scan_ok(1) [OF a] by (auto simp: sets_int_def split: option.splits)
  show "sets_int lines ''height'' = None \<longleftrightarrow> last_value lines ''height'' = None"
    using scan_ok(2) [OF a] by (auto simp: sets_int_def split: option.splits)
  show "sets_pair lines ''entry'' = None \<longleftrightarrow> last_value lines ''entry'' = None"
    using scan_ok(3) [OF a] by (auto simp: sets_pair_def split: option.splits)
  show "sets_pair lines ''exit'' = None \<longleftrightarrow> last_value lines ''exit'' = None"
    using scan_ok(4) [OF a] by (auto simp: sets_pair_def split: option.splits)
qed

subsection \<open>The checks after the loop, one at a time\<close>

lemma validate_missing:
  shows "width a = None \<Longrightarrow>
           validate a = Inl (InvalidDimensionsError ''Width not found in config file'')"
    and "width a \<noteq> None \<Longrightarrow> height a = None \<Longrightarrow>
           validate a = Inl (InvalidDimensionsError ''Height not found in config file'')"
    and "width a \<noteq> None \<Longrightarrow> height a \<noteq> None \<Longrightarrow> entry a = None \<Longrightarrow>
           validate a = Inl (InvalidCoordinatesError ''Entry not found in config file'')"
    and "width a \<noteq> None \<Longrightarrow> height a \<noteq> None \<Longrightarrow> entry a \<noteq> None \<Longrightarrow> exit_coord a = None \<Longrightarrow>
           validate a = Inl (InvalidCoordinatesError ''Exit not found in config file'')"
    and "width a \<noteq> None \<Longrightarrow> height a \<noteq> None \<Longrightarrow> entry a \<noteq> None \<Longrightarrow> exit_coord a \<noteq> None \<Longrightarrow>
         output_file a = None \<Longrightarrow>
           validate a = Inl (InvalidDimensionsError ''Output file not found in config file'')"
  by (auto simp: validate_def)

lemma validate_present:
  assumes "width a = Some w" and "height a = Some h" and "entry a = Some en"
    and "exit_coord a = Some ex" and "output_file a = Some out"
  shows "validate a =
          (if w \<le> 0 then
             Inl (InvalidDimensionsError (''Width must be positive, got '' @ str_int w))
           else if h \<le> 0 then
             Inl (InvalidDimensionsError (''Height must be positive, got'' @ str_int h))
           else if w > 1000 then
             Inl (InvalidDimensionsError (''Width too large (max 1000), got '' @ str_int w))
           else if h > 1000 then
             Inl (InvalidDimensionsError (''Height too large (max 1000), got '' @ str_int h))
           else if fst en < 0 \<or> fst en \<ge> w \<or> snd en < 0 \<or> snd en \<ge> h then
             Inl (InvalidCoordinatesError
                    (''Entry '' @ str_pair en @ '' is out of bounds (0-'' @ str_int (w - 1)
                      @ '', 0-'' @ str_int (h - 1) @ '')''))
           else if fst ex < 0 \<or> fst ex \<ge> w \<or> snd ex < 0 \<or> snd ex \<ge> h then
             Inl (InvalidCoordinatesError
                    (''Exit '' @ str_pair ex @ '' is out of bounds (0-'' @ str_int (w - 1)
                      @ '', 0-'' @ str_int (h - 1) @ '')''))
           else if en = ex then
             Inl (InvalidCoordinatesError ''Entry and exit cannot be the same'')
           else Inr \<lparr>cfg_width = w, cfg_height = h, cfg_entry = en, cfg_exit = ex,
                     cfg_output_file = out, cfg_algorithm = algorithm a\<rparr>)"
  using assms by (simp add: validate_def)

lemma accumulated_simps:
  "width (accumulated lines) = sets_int lines ''width''"
  "height (accumulated lines) = sets_int lines ''height''"
  "entry (accumulated lines) = sets_pair lines ''entry''"
  "exit_coord (accumulated lines) = sets_pair lines ''exit''"
  "output_file (accumulated lines) = last_value lines ''output_file''"
  "algorithm (accumulated lines) =
     (case last_value lines ''algorithm'' of None \<Rightarrow> ''recursive_backtracking'' | Some v \<Rightarrow> v)"
  by (simp_all add: accumulated_def)

lemma parse_present:
  assumes "fs filename = Some lines" and "well_formed lines"
    and "sets_int lines ''width'' = Some w" and "sets_int lines ''height'' = Some h"
    and "sets_pair lines ''entry'' = Some en" and "sets_pair lines ''exit'' = Some ex"
    and "last_value lines ''output_file'' = Some out"
  shows "parse fs filename =
          (if w \<le> 0 then
             Inl (InvalidDimensionsError (''Width must be positive, got '' @ str_int w))
           else if h \<le> 0 then
             Inl (InvalidDimensionsError (''Height must be positive, got'' @ str_int h))
           else if w > 1000 then
             Inl (InvalidDimensionsError (''Width too large (max 1000), got '' @ str_int w))
           else if h > 1000 then
             Inl (InvalidDimensionsError (''Height too large (max 1000), got '' @ str_int h))
           else if fst en < 0 \<or> fst en \<ge> w \<or> snd en < 0 \<or> snd en \<ge> h then
             Inl (InvalidCoordinatesError
                    (''Entry '' @ str_pair en @ '' is out of bounds (0-'' @ str_int (w - 1)
                      @ '', 0-'' @ str_int (h - 1) @ '')''))
           else if fst ex < 0 \<or> fst ex \<ge> w \<or> snd ex < 0 \<or> snd ex \<ge> h then
             Inl (InvalidCoordinatesError
                    (''Exit '' @ str_pair ex @ '' is out of bounds (0-'' @ str_int (w - 1)
                      @ '', 0-'' @ str_int (h - 1) @ '')''))
           else if en = ex then
             Inl (InvalidCoordinatesError ''Entry and exit cannot be the same'')
           else Inr \<lparr>cfg_width = w, cfg_height = h, cfg_entry = en, cfg_exit = ex,
                     cfg_output_file = out,
                     cfg_algorithm = (case last_value lines ''algorithm'' of
                                        None \<Rightarrow> ''recursive_backtracking'' | Some v \<Rightarrow> v)\<rparr>)"
proof -
  have "parse fs filename = validate (accumulated lines)"
    using assms(1,2) by (rule parse_well_formed)
  also note validate_present
    [of "accumulated lines" w h en ex out, unfolded accumulated_simps, OF assms(3-7)]
  finally show ?thesis .
qed

lemma scan_skips:
  assumes "\<forall>raw\<in>set lines. strip raw = [] \<or> startswith (strip raw) (CHR ''#'')"
  shows "scan lines a = Inr a"
  using assms by (induction lines) (auto simp: step_def)

lemma validate_same:
  assumes "entry a = Some p" and "exit_coord a = Some p"
  shows "\<exists>e. validate a = Inl e"
proof (cases "width a = None \<or> height a = None \<or> output_file a = None")
  case True
  then show ?thesis using assms by (auto simp: validate_def split: option.splits)
next
  case False
  then obtain w h out where "width a = Some w" and "height a = Some h"
    and "output_file a = Some out" by auto
  then show ?thesis using assms by (simp add: validate_present)
qed

lemma validate_Inr:
  assumes "validate a = Inr r"
  shows "output_file a = Some (cfg_output_file r)"
proof -
  from assms obtain w h en ex out where f: "width a = Some w" "height a = Some h"
    "entry a = Some en" "exit_coord a = Some ex" "output_file a = Some out"
    by (auto simp: validate_def split: option.splits)
  from assms show ?thesis
    unfolding validate_present [OF f] using f(5) by (auto split: if_splits)
qed

lemma parse_Inr:
  assumes "parse fs filename = Inr r"
  obtains lines where "fs filename = Some lines" and "well_formed lines"
    and "validate (accumulated lines) = Inr r"
proof -
  from assms obtain lines a where l: "fs filename = Some lines"
    and a: "scan lines initial = Inr a" and v: "validate a = Inr r"
    by (auto simp: parse_def split: option.splits sum.splits)
  from a have "well_formed lines" by (simp add: well_formed_def)
  moreover from a have "a = accumulated lines" by (rule scan_accumulated)
  ultimately show ?thesis using l v that by simp
qed

subsection \<open>Stripping and lower-casing\<close>

lemma isspace_lower_char: "isspace (lower_char c) = isspace c"
  by (auto simp: isspace_def lower_char_def Let_def)

lemma lower_char_idem: "lower_char (lower_char c) = lower_char c"
  by (auto simp: lower_char_def Let_def)

lemma lower_idem: "lower (lower s) = lower s"
  by (simp add: lower_def lower_char_idem)

lemma dropWhile_isspace_lower:
  "dropWhile isspace (map lower_char s) = map lower_char (dropWhile isspace s)"
  by (induction s) (simp_all add: isspace_lower_char)

lemma strip_lower: "strip (lower s) = lower (strip s)"
  by (simp add: strip_def lower_def rev_map dropWhile_isspace_lower)

lemma last_dropWhile: "dropWhile P xs \<noteq> [] \<Longrightarrow> last (dropWhile P xs) = last xs"
  by (induction xs) (auto split: if_splits)

lemma strip_idem: "strip (strip s) = strip s"
proof -
  define t where "t = dropWhile isspace s"
  define u where "u = dropWhile isspace (rev t)"
  have s: "strip s = rev u" by (simp add: strip_def t_def u_def)
  have "dropWhile isspace (rev u) = rev u"
  proof (cases "u = []")
    case True
    then show ?thesis by simp
  next
    case False
    then have "last u = last (rev t)" unfolding u_def by (rule last_dropWhile)
    moreover from False have "t \<noteq> []" by (auto simp: u_def)
    ultimately have "hd (rev u) = hd t" using False by (simp add: hd_rev last_rev)
    moreover have "\<not> isspace (hd t)"
      using \<open>t \<noteq> []\<close> unfolding t_def by (rule hd_dropWhile)
    ultimately show ?thesis using False by (cases "rev u") auto
  qed
  then have "strip (rev u) = rev (dropWhile isspace u)" by (simp add: strip_def)
  also have "\<dots> = rev u" by (simp add: u_def)
  finally show ?thesis by (simp add: s)
qed

lemma set_strip: "set (strip s) \<subseteq> set s"
proof -
  have "set (strip s) \<subseteq> set (dropWhile isspace s)"
    unfolding strip_def set_rev using set_dropWhileD [of _ isspace "rev (dropWhile isspace s)"]
    by auto
  also have "\<dots> \<subseteq> set s" using set_dropWhileD [of _ isspace s] by auto
  finally show ?thesis .
qed

lemma normalize_props:
  assumes "normalize parts = Inr (key, value)"
  shows "strip key = key" and "lower key = key" and "strip value = value"
    and "CHR ''#'' \<notin> set value"
proof -
  from assms obtain k v where p: "parts = [k, v]"
    by (auto simp: normalize_def split: list.splits)
  with assms have kv: "key = lower (strip k)"
    "value = strip (takeWhile (\<lambda>x. x \<noteq> CHR ''#'') v)"
    by (simp_all add: normalize_two)
  show "strip key = key" by (simp add: kv strip_lower strip_idem)
  show "lower key = key" by (simp add: kv lower_idem)
  show "strip value = value" by (simp add: kv strip_idem)
  have "set value \<subseteq> set (takeWhile (\<lambda>x. x \<noteq> CHR ''#'') v)"
    unfolding kv by (rule set_strip)
  then show "CHR ''#'' \<notin> set value" by (auto dest: set_takeWhileD)
qed

subsection \<open>The loop of \<^verbatim>\<open>ConfigParser.parse\<close>\<close>


lemma cp_line_accepts:
  assumes "\<not> no_equals raw"
  shows "\<exists>c'. cp_line raw c = Inr c'"
  using assms by (auto simp: cp_line_def no_equals_def Let_def split1_def)


lemma cp_line_from_empty:
  "cp_line raw c = (case cp_line raw Map.empty of Inl e \<Rightarrow> Inl e | Inr u \<Rightarrow> Inr (c ++ u))"
  by (auto simp: cp_line_def Let_def split: list.splits)

lemma cp_loop_from_empty:
  "cp_loop lines c = (fst (cp_loop lines Map.empty), c ++ snd (cp_loop lines Map.empty))"
proof (induction lines arbitrary: c)
  case Nil
  then show ?case by simp
next
  case (Cons raw rest)
  show ?case
  proof (cases "cp_line raw Map.empty")
    case (Inl e)
    then have "cp_line raw c = Inl e" by (subst cp_line_from_empty) simp
    with Inl show ?thesis by simp
  next
    case (Inr u)
    then have "cp_line raw c = Inr (c ++ u)" by (subst cp_line_from_empty) simp
    then have "cp_loop (raw # rest) c = cp_loop rest (c ++ u)" by simp
    also have "\<dots> = (fst (cp_loop rest Map.empty), (c ++ u) ++ snd (cp_loop rest Map.empty))"
      by (rule Cons.IH)
    finally have l: "cp_loop (raw # rest) c
      = (fst (cp_loop rest Map.empty), c ++ (u ++ snd (cp_loop rest Map.empty)))"
      by simp
    from Inr have "cp_loop (raw # rest) Map.empty = cp_loop rest u" by simp
    also have "\<dots> = (fst (cp_loop rest Map.empty), u ++ snd (cp_loop rest Map.empty))"
      by (rule Cons.IH)
    finally show ?thesis using l by simp
  qed
qed

lemma map_add_twice: "(c ++ u) ++ u = c ++ u"
  by (rule ext) (simp add: map_add_def split: option.splits)

lemma cp_loop_again:
  "fst (cp_loop lines (snd (cp_loop lines c))) = fst (cp_loop lines c)"
  "fst (cp_loop lines c) = None \<Longrightarrow> snd (cp_loop lines (snd (cp_loop lines c))) = snd (cp_loop lines c)"
proof -
  have 1: "cp_loop lines c
    = (fst (cp_loop lines Map.empty), c ++ snd (cp_loop lines Map.empty))"
    by (rule cp_loop_from_empty)
  have 2: "cp_loop lines (c ++ snd (cp_loop lines Map.empty))
    = (fst (cp_loop lines Map.empty),
       (c ++ snd (cp_loop lines Map.empty)) ++ snd (cp_loop lines Map.empty))"
    by (rule cp_loop_from_empty)
  show "fst (cp_loop lines (snd (cp_loop lines c))) = fst (cp_loop lines c)"
    by (simp add: 1 2)
  show "snd (cp_loop lines (snd (cp_loop lines c))) = snd (cp_loop lines c)"
    by (simp add: 1 2 map_add_twice)
qed


lemma cp_loop_all_good:
  assumes "\<forall>x\<in>set lines. \<not> no_equals x"
  shows "fst (cp_loop lines c) = None"
  using assms
proof (induction lines arbitrary: c)
  case Nil
  then show ?case by simp
next
  case (Cons x rest)
  then obtain c' where "cp_line x c = Inr c'" using cp_line_accepts [of x c] by auto
  with Cons show ?case by simp
qed

lemma ConfigParser_parse_fst:
  assumes "fs (filepath self) = Some lines"
  shows "fst (ConfigParser_parse fs self)
    = (case fst (cp_loop lines (config self)) of
         Some e \<Rightarrow> Inl e | None \<Rightarrow> Inr (snd (cp_loop lines (config self))))"
  using assms by (simp add: ConfigParser_parse_def split: prod.splits option.splits)

lemma ConfigParser_parse_snd:
  assumes "fs (filepath self) = Some lines"
  shows "snd (ConfigParser_parse fs self) = self\<lparr>config := snd (cp_loop lines (config self))\<rparr>"
  using assms by (simp add: ConfigParser_parse_def split: prod.splits option.splits)



subsection \<open>A file is read without an exception exactly when its lines are well formed\<close>






subsection \<open>Successful loads\<close>



subsection \<open>Missing fields\<close>

text \<open>
  Claim C2, as stated, fails: the claim is for every file in which a required field
  is never set, and a file whose only line has no separator sets no field, yet the
  loop ends with the format error before any presence check is reached.
\<close>

theorem presence_error_counterexample:
  "last_value [''bogus_line_no_separator''] ''width'' = None
   \<and> parse (map_of [(''config.txt'', [''bogus_line_no_separator''])]) ''config.txt''
       = Inl (ConfigError (''Invalid line format: expected '' @ apostrophe @ ''=''
                            @ apostrophe @ '' or '' @ apostrophe @ '':'' @ apostrophe))
   \<and> parse (map_of [(''config.txt'', [''bogus_line_no_separator''])]) ''config.txt''
       \<noteq> Inl (InvalidDimensionsError ''Width not found in config file'')"
  by code_simp

text \<open>
  Claim C2, amended. For every existing file that is well formed (every line of it is
  read without an exception) and in which at least one of width, height, entry, exit
  and output file is never set, \<^const>\<open>parse\<close> fails with the presence error of the
  first unset field in the order width, height, entry, exit, output file, also when
  several are unset. An existing file of blank and comment lines only fails with the
  presence error of the width.
\<close>

theorem first_unset_field_reported:
  assumes "fs filename = Some lines"
  shows "(well_formed lines
          \<and> (last_value lines ''width'' = None \<or> last_value lines ''height'' = None
             \<or> last_value lines ''entry'' = None \<or> last_value lines ''exit'' = None
             \<or> last_value lines ''output_file'' = None)
          \<longrightarrow> parse fs filename = Inl
               (if last_value lines ''width'' = None then
                  InvalidDimensionsError ''Width not found in config file''
                else if last_value lines ''height'' = None then
                  InvalidDimensionsError ''Height not found in config file''
                else if last_value lines ''entry'' = None then
                  InvalidCoordinatesError ''Entry not found in config file''
                else if last_value lines ''exit'' = None then
                  InvalidCoordinatesError ''Exit not found in config file''
                else InvalidDimensionsError ''Output file not found in config file''))
       \<and> ((\<forall>raw\<in>set lines. strip raw = [] \<or> startswith (strip raw) (CHR ''#''))
          \<longrightarrow> parse fs filename
                = Inl (InvalidDimensionsError ''Width not found in config file''))"
proof (intro conjI impI)
  assume h: "well_formed lines
          \<and> (last_value lines ''width'' = None \<or> last_value lines ''height'' = None
             \<or> last_value lines ''entry'' = None \<or> last_value lines ''exit'' = None
             \<or> last_value lines ''output_file'' = None)"
  then have wf: "well_formed lines" by simp
  have p: "parse fs filename = validate (accumulated lines)"
    using assms wf by (rule parse_well_formed)
  note u = well_formed_unset [OF wf]
  note m = validate_missing [of "accumulated lines", unfolded accumulated_simps u]
  show "parse fs filename = Inl
               (if last_value lines ''width'' = None then
                  InvalidDimensionsError ''Width not found in config file''
                else if last_value lines ''height'' = None then
                  InvalidDimensionsError ''Height not found in config file''
                else if last_value lines ''entry'' = None then
                  InvalidCoordinatesError ''Entry not found in config file''
                else if last_value lines ''exit'' = None then
                  InvalidCoordinatesError ''Exit not found in config file''
                else InvalidDimensionsError ''Output file not found in config file'')"
    unfolding p using h m by auto
next
  assume "\<forall>raw\<in>set lines. strip raw = [] \<or> startswith (strip raw) (CHR ''#'')"
  then have "scan lines initial = Inr initial" by (rule scan_skips)
  with assms show "parse fs filename
                = Inl (InvalidDimensionsError ''Width not found in config file'')"
    by (simp add: parse_def validate_def initial_def)
qed

theorem first_unset_field_reported_witness:
  "parse (map_of [(''config.txt'', missing_two)]) ''config.txt''
     = Inl (InvalidDimensionsError ''Height not found in config file'')
   \<and> parse (map_of [(''config.txt'', comments_only)]) ''config.txt''
     = Inl (InvalidDimensionsError ''Width not found in config file'')"
proof
  have 1: "map_of [(''config.txt'', missing_two)] ''config.txt'' = Some missing_two"
    by simp
  have wf: "well_formed missing_two" by code_simp
  have w: "last_value missing_two ''width'' = Some ''10''" by code_simp
  have h: "last_value missing_two ''height'' = None" by code_simp
  show "parse (map_of [(''config.txt'', missing_two)]) ''config.txt''
     = Inl (InvalidDimensionsError ''Height not found in config file'')"
    using first_unset_field_reported [of "map_of [(''config.txt'', missing_two)]" "''config.txt''", OF 1] wf w h by simp
next
  have 1: "map_of [(''config.txt'', comments_only)] ''config.txt'' = Some comments_only"
    by simp
  have s: "\<forall>raw\<in>set comments_only. strip raw = [] \<or> startswith (strip raw) (CHR ''#'')"
    by code_simp
  show "parse (map_of [(''config.txt'', comments_only)]) ''config.txt''
     = Inl (InvalidDimensionsError ''Width not found in config file'')"
    using first_unset_field_reported [of "map_of [(''config.txt'', comments_only)]" "''config.txt''", OF 1] s by blast
qed

text \<open>
  Claim C9. When the output file is the first unset required field (the file exists,
  is well formed, and sets width, height, entry and exit), \<^const>\<open>parse\<close> raises the
  presence error of the output file as an \<^const>\<open>InvalidDimensionsError\<close>: neither an
  \<^const>\<open>InvalidCoordinatesError\<close> nor a \<^const>\<open>ConfigError\<close>.
\<close>

theorem output_file_presence_is_dimension_error:
  assumes "fs filename = Some lines" and "well_formed lines"
    and "last_value lines ''width'' \<noteq> None" and "last_value lines ''height'' \<noteq> None"
    and "last_value lines ''entry'' \<noteq> None" and "last_value lines ''exit'' \<noteq> None"
    and "last_value lines ''output_file'' = None"
  shows "parse fs filename
           = Inl (InvalidDimensionsError ''Output file not found in config file'')
       \<and> (\<forall>msg. parse fs filename \<noteq> Inl (InvalidCoordinatesError msg))
       \<and> (\<forall>msg. parse fs filename \<noteq> Inl (ConfigError msg))"
proof -
  have p: "parse fs filename = validate (accumulated lines)"
    using assms(1,2) by (rule parse_well_formed)
  note u = well_formed_unset [OF assms(2)]
  note m = validate_missing(5) [of "accumulated lines", unfolded accumulated_simps u]
  have "parse fs filename
           = Inl (InvalidDimensionsError ''Output file not found in config file'')"
    unfolding p using assms(3-7) by (rule m)
  then show ?thesis by simp
qed

theorem output_file_presence_is_dimension_error_witness:
  "parse (map_of [(''config.txt'', no_output_file)]) ''config.txt''
     = Inl (InvalidDimensionsError ''Output file not found in config file'')"
proof -
  have 1: "map_of [(''config.txt'', no_output_file)] ''config.txt'' = Some no_output_file"
    by simp
  have 2: "well_formed no_output_file" by code_simp
  have 3: "last_value no_output_file ''width'' \<noteq> None" by code_simp
  have 4: "last_value no_output_file ''height'' \<noteq> None" by code_simp
  have 5: "last_value no_output_file ''entry'' \<noteq> None" by code_simp
  have 6: "last_value no_output_file ''exit'' \<noteq> None" by code_simp
  have 7: "last_value no_output_file ''output_file'' = None" by code_simp
  show ?thesis
    using output_file_presence_is_dimension_error [of "map_of [(''config.txt'', no_output_file)]" "''config.txt''", OF 1 2 3 4 5 6 7]
    by simp
qed

subsection \<open>Dimension and coordinate checks\<close>

text \<open>
  Claim C3. Once all presence checks pass (the file exists, is well formed and sets
  the five fields), \<^const>\<open>parse\<close> checks that the width is positive, then the height,
  then that the width is at most 1000, then the height; the first check that fails
  raises an \<^const>\<open>InvalidDimensionsError\<close> whose message ends with the offending value,
  and no such error is raised when both lie from 1 to 1000. With the other fields
  valid, a width or a height of 1 or 1000 succeeds; a width or a height of 0 or 1001
  fails with an \<^const>\<open>InvalidDimensionsError\<close>.
\<close>

theorem dimension_checks_in_order:
  assumes "fs filename = Some lines" and "well_formed lines"
    and "sets_int lines ''width'' = Some w" and "sets_int lines ''height'' = Some h"
    and "sets_pair lines ''entry'' = Some en" and "sets_pair lines ''exit'' = Some ex"
    and "last_value lines ''output_file'' = Some out"
  shows "(w \<le> 0 \<longrightarrow> parse fs filename
            = Inl (InvalidDimensionsError (''Width must be positive, got '' @ str_int w)))
       \<and> (0 < w \<and> h \<le> 0 \<longrightarrow> parse fs filename
            = Inl (InvalidDimensionsError (''Height must be positive, got'' @ str_int h)))
       \<and> (0 < w \<and> 0 < h \<and> 1000 < w \<longrightarrow> parse fs filename
            = Inl (InvalidDimensionsError
                     (''Width too large (max 1000), got '' @ str_int w)))
       \<and> (0 < w \<and> 0 < h \<and> w \<le> 1000 \<and> 1000 < h \<longrightarrow> parse fs filename
            = Inl (InvalidDimensionsError
                     (''Height too large (max 1000), got '' @ str_int h)))
       \<and> (0 < w \<and> 0 < h \<and> w \<le> 1000 \<and> h \<le> 1000
            \<longrightarrow> (\<forall>msg. parse fs filename \<noteq> Inl (InvalidDimensionsError msg)))
       \<and> ((w = 1 \<or> w = 1000 \<or> h = 1 \<or> h = 1000)
            \<and> 1 \<le> w \<and> w \<le> 1000 \<and> 1 \<le> h \<and> h \<le> 1000
            \<and> 0 \<le> fst en \<and> fst en < w \<and> 0 \<le> snd en \<and> snd en < h
            \<and> 0 \<le> fst ex \<and> fst ex < w \<and> 0 \<le> snd ex \<and> snd ex < h \<and> en \<noteq> ex
            \<longrightarrow> (\<exists>r. parse fs filename = Inr r))
       \<and> (w = 0 \<or> w = 1001 \<or> h = 0 \<or> h = 1001
            \<longrightarrow> (\<exists>msg. parse fs filename = Inl (InvalidDimensionsError msg)))"
proof -
  note p = parse_present [of fs filename, OF assms]
  have 1: "w \<le> 0 \<longrightarrow> parse fs filename
            = Inl (InvalidDimensionsError (''Width must be positive, got '' @ str_int w))"
    unfolding p by simp
  have 2: "0 < w \<and> h \<le> 0 \<longrightarrow> parse fs filename
            = Inl (InvalidDimensionsError (''Height must be positive, got'' @ str_int h))"
    unfolding p by simp
  have 3: "0 < w \<and> 0 < h \<and> 1000 < w \<longrightarrow> parse fs filename
            = Inl (InvalidDimensionsError
                     (''Width too large (max 1000), got '' @ str_int w))"
    unfolding p by simp
  have 4: "0 < w \<and> 0 < h \<and> w \<le> 1000 \<and> 1000 < h \<longrightarrow> parse fs filename
            = Inl (InvalidDimensionsError
                     (''Height too large (max 1000), got '' @ str_int h))"
    unfolding p by simp
  have 5: "0 < w \<and> 0 < h \<and> w \<le> 1000 \<and> h \<le> 1000
            \<longrightarrow> (\<forall>msg. parse fs filename \<noteq> Inl (InvalidDimensionsError msg))"
    unfolding p by simp
  have 6: "(w = 1 \<or> w = 1000 \<or> h = 1 \<or> h = 1000)
            \<and> 1 \<le> w \<and> w \<le> 1000 \<and> 1 \<le> h \<and> h \<le> 1000
            \<and> 0 \<le> fst en \<and> fst en < w \<and> 0 \<le> snd en \<and> snd en < h
            \<and> 0 \<le> fst ex \<and> fst ex < w \<and> 0 \<le> snd ex \<and> snd ex < h \<and> en \<noteq> ex
            \<longrightarrow> (\<exists>r. parse fs filename = Inr r)"
    unfolding p by simp
  have 7: "w = 0 \<or> w = 1001 \<or> h = 0 \<or> h = 1001
            \<longrightarrow> (\<exists>msg. parse fs filename = Inl (InvalidDimensionsError msg))"
    unfolding p by auto
  from 1 2 3 4 5 6 7 show ?thesis by blast
qed

theorem dimension_checks_in_order_witness:
  "(\<exists>r. parse (map_of [(''config.txt'', widest)]) ''config.txt'' = Inr r)
   \<and> parse (map_of [(''config.txt'', too_wide)]) ''config.txt''
       = Inl (InvalidDimensionsError ''Width too large (max 1000), got 1001'')"
proof
  have 1: "map_of [(''config.txt'', widest)] ''config.txt'' = Some widest" by simp
  have 2: "well_formed widest" by code_simp
  have 3: "sets_int widest ''width'' = Some 1000" by code_simp
  have 4: "sets_int widest ''height'' = Some 1" by code_simp
  have 5: "sets_pair widest ''entry'' = Some (0, 0)" by code_simp
  have 6: "sets_pair widest ''exit'' = Some (999, 0)" by code_simp
  have 7: "last_value widest ''output_file'' = Some ''out.txt''" by code_simp
  show "\<exists>r. parse (map_of [(''config.txt'', widest)]) ''config.txt'' = Inr r"
    using dimension_checks_in_order [of "map_of [(''config.txt'', widest)]" "''config.txt''", OF 1 2 3 4 5 6 7] by simp
next
  have 1: "map_of [(''config.txt'', too_wide)] ''config.txt'' = Some too_wide" by simp
  have 2: "well_formed too_wide" by code_simp
  have 3: "sets_int too_wide ''width'' = Some 1001" by code_simp
  have 4: "sets_int too_wide ''height'' = Some 10" by code_simp
  have 5: "sets_pair too_wide ''entry'' = Some (0, 0)" by code_simp
  have 6: "sets_pair too_wide ''exit'' = Some (9, 9)" by code_simp
  have 7: "last_value too_wide ''output_file'' = Some ''out.txt''" by code_simp
  have 8: "str_int 1001 = ''1001''" by code_simp
  show "parse (map_of [(''config.txt'', too_wide)]) ''config.txt''
       = Inl (InvalidDimensionsError ''Width too large (max 1000), got 1001'')"
    using dimension_checks_in_order [of "map_of [(''config.txt'', too_wide)]" "''config.txt''", OF 1 2 3 4 5 6 7]
    unfolding 8 by simp
qed

text \<open>
  Claim C4. Once the dimension checks pass (width and height from 1 to 1000),
  \<^const>\<open>parse\<close> checks the entry and then the exit. A pair with a negative component,
  or a first component of at least the width, or a second component of at least the
  height, raises an \<^const>\<open>InvalidCoordinatesError\<close> whose message shows the pair and
  the box from 0 to the width less one by 0 to the height less one. A pair inside the
  box passes: with both inside, the result is the record, or the error of equal entry
  and exit.
\<close>

theorem coordinate_bounds_checked:
  assumes "fs filename = Some lines" and "well_formed lines"
    and "sets_int lines ''width'' = Some w" and "sets_int lines ''height'' = Some h"
    and "sets_pair lines ''entry'' = Some en" and "sets_pair lines ''exit'' = Some ex"
    and "last_value lines ''output_file'' = Some out"
    and "1 \<le> w" and "w \<le> 1000" and "1 \<le> h" and "h \<le> 1000"
  shows "(fst en < 0 \<or> w \<le> fst en \<or> snd en < 0 \<or> h \<le> snd en
            \<longrightarrow> parse fs filename = Inl (InvalidCoordinatesError
                  (''Entry '' @ str_pair en @ '' is out of bounds (0-'' @ str_int (w - 1)
                    @ '', 0-'' @ str_int (h - 1) @ '')'')))
       \<and> (0 \<le> fst en \<and> fst en < w \<and> 0 \<le> snd en \<and> snd en < h
            \<and> (fst ex < 0 \<or> w \<le> fst ex \<or> snd ex < 0 \<or> h \<le> snd ex)
            \<longrightarrow> parse fs filename = Inl (InvalidCoordinatesError
                  (''Exit '' @ str_pair ex @ '' is out of bounds (0-'' @ str_int (w - 1)
                    @ '', 0-'' @ str_int (h - 1) @ '')'')))
       \<and> (0 \<le> fst en \<and> fst en < w \<and> 0 \<le> snd en \<and> snd en < h
            \<and> 0 \<le> fst ex \<and> fst ex < w \<and> 0 \<le> snd ex \<and> snd ex < h
            \<longrightarrow> parse fs filename =
                 (if en = ex
                  then Inl (InvalidCoordinatesError ''Entry and exit cannot be the same'')
                  else Inr \<lparr>cfg_width = w, cfg_height = h, cfg_entry = en, cfg_exit = ex,
                            cfg_output_file = out,
                            cfg_algorithm = (case last_value lines ''algorithm'' of
                               None \<Rightarrow> ''recursive_backtracking'' | Some v \<Rightarrow> v)\<rparr>))"
proof -
  note p = parse_present [of fs filename, OF assms(1-7)]
  have 1: "fst en < 0 \<or> w \<le> fst en \<or> snd en < 0 \<or> h \<le> snd en
            \<longrightarrow> parse fs filename = Inl (InvalidCoordinatesError
                  (''Entry '' @ str_pair en @ '' is out of bounds (0-'' @ str_int (w - 1)
                    @ '', 0-'' @ str_int (h - 1) @ '')''))"
    unfolding p using assms(8-11) by simp
  have 2: "0 \<le> fst en \<and> fst en < w \<and> 0 \<le> snd en \<and> snd en < h
            \<and> (fst ex < 0 \<or> w \<le> fst ex \<or> snd ex < 0 \<or> h \<le> snd ex)
            \<longrightarrow> parse fs filename = Inl (InvalidCoordinatesError
                  (''Exit '' @ str_pair ex @ '' is out of bounds (0-'' @ str_int (w - 1)
                    @ '', 0-'' @ str_int (h - 1) @ '')''))"
    unfolding p using assms(8-11) by simp
  have 3: "0 \<le> fst en \<and> fst en < w \<and> 0 \<le> snd en \<and> snd en < h
            \<and> 0 \<le> fst ex \<and> fst ex < w \<and> 0 \<le> snd ex \<and> snd ex < h
            \<longrightarrow> parse fs filename =
                 (if en = ex
                  then Inl (InvalidCoordinatesError ''Entry and exit cannot be the same'')
                  else Inr \<lparr>cfg_width = w, cfg_height = h, cfg_entry = en, cfg_exit = ex,
                            cfg_output_file = out,
                            cfg_algorithm = (case last_value lines ''algorithm'' of
                               None \<Rightarrow> ''recursive_backtracking'' | Some v \<Rightarrow> v)\<rparr>)"
    unfolding p using assms(8-11) by simp
  from 1 2 3 show ?thesis by blast
qed

theorem coordinate_bounds_checked_witness:
  "parse (map_of [(''config.txt'', entry_outside)]) ''config.txt''
     = Inl (InvalidCoordinatesError ''Entry (10, 5) is out of bounds (0-9, 0-9)'')"
proof -
  have 1: "map_of [(''config.txt'', entry_outside)] ''config.txt'' = Some entry_outside"
    by simp
  have 2: "well_formed entry_outside" by code_simp
  have 3: "sets_int entry_outside ''width'' = Some 10" by code_simp
  have 4: "sets_int entry_outside ''height'' = Some 10" by code_simp
  have 5: "sets_pair entry_outside ''entry'' = Some (10, 5)" by code_simp
  have 6: "sets_pair entry_outside ''exit'' = Some (9, 9)" by code_simp
  have 7: "last_value entry_outside ''output_file'' = Some ''out.txt''" by code_simp
  have 8: "''Entry '' @ str_pair (10, 5) @ '' is out of bounds (0-'' @ str_int (10 - 1)
             @ '', 0-'' @ str_int (10 - 1) @ '')''
           = ''Entry (10, 5) is out of bounds (0-9, 0-9)''"
    by code_simp
  show ?thesis
    using coordinate_bounds_checked [of "map_of [(''config.txt'', entry_outside)]" "''config.txt''", OF 1 2 3 4 5 6 7]
    unfolding 8 by simp
qed

subsection \<open>The tokenizer\<close>

text \<open>
  Claim C5, as stated, fails in one point: the format error does not name the
  offending line. Its message is a fixed text, the same for every line without a
  separator.
\<close>

theorem format_error_counterexample:
  "parse_line ''bogus_line_no_separator''
     = Inl (ConfigError (''Invalid line format: expected '' @ apostrophe @ ''=''
                          @ apostrophe @ '' or '' @ apostrophe @ '':'' @ apostrophe))
   \<and> parse_line ''another line'' = parse_line ''bogus_line_no_separator''"
  by code_simp

text \<open>
  Claim C5, amended. For every line, \<^const>\<open>parse_line\<close> splits at the first equals sign
  if the line has one, otherwise at the first colon if it has one, and otherwise fails
  with a \<^const>\<open>ConfigError\<close> of the fixed message
  \<^verbatim>\<open>Invalid line format: expected '=' or ':'\<close>, which does not name the line. The
  returned key is the text before the separator, stripped and lower-cased; the returned
  value is the text after it, cut at its first \<^verbatim>\<open>#\<close> and then stripped. So the key is
  free of outer whitespace and of upper-case letters, and the value is free of outer
  whitespace and of \<^verbatim>\<open>#\<close>.
\<close>

theorem parse_line_splits_at_first_separator:
  "(CHR ''='' \<notin> set k
      \<longrightarrow> parse_line (k @ CHR ''='' # v)
            = Inr (lower (strip k), strip (takeWhile (\<lambda>x. x \<noteq> CHR ''#'') v)))
   \<and> (CHR ''='' \<notin> set k \<and> CHR ''='' \<notin> set v \<and> CHR '':'' \<notin> set k
      \<longrightarrow> parse_line (k @ CHR '':'' # v)
            = Inr (lower (strip k), strip (takeWhile (\<lambda>x. x \<noteq> CHR ''#'') v)))
   \<and> (CHR ''='' \<notin> set line \<and> CHR '':'' \<notin> set line
      \<longrightarrow> parse_line line
            = Inl (ConfigError (''Invalid line format: expected '' @ apostrophe @ ''=''
                                 @ apostrophe @ '' or '' @ apostrophe @ '':''
                                 @ apostrophe)))
   \<and> (parse_line line = Inr (key, value)
      \<longrightarrow> strip key = key \<and> lower key = key \<and> strip value = value
          \<and> CHR ''#'' \<notin> set value)"
proof (intro conjI impI)
  assume "CHR ''='' \<notin> set k"
  then show "parse_line (k @ CHR ''='' # v)
            = Inr (lower (strip k), strip (takeWhile (\<lambda>x. x \<noteq> CHR ''#'') v))"
    by (simp add: parse_line_def split1_at_first normalize_two)
next
  assume "CHR ''='' \<notin> set k \<and> CHR ''='' \<notin> set v \<and> CHR '':'' \<notin> set k"
  then show "parse_line (k @ CHR '':'' # v)
            = Inr (lower (strip k), strip (takeWhile (\<lambda>x. x \<noteq> CHR ''#'') v))"
    by (simp add: parse_line_def split1_at_first normalize_two)
next
  assume "CHR ''='' \<notin> set line \<and> CHR '':'' \<notin> set line"
  then show "parse_line line
            = Inl (ConfigError (''Invalid line format: expected '' @ apostrophe @ ''=''
                                 @ apostrophe @ '' or '' @ apostrophe @ '':''
                                 @ apostrophe))"
    by (simp add: parse_line_def)
next
  assume a: "parse_line line = Inr (key, value)"
  then obtain parts where n: "normalize parts = Inr (key, value)"
    by (auto simp: parse_line_def split: if_splits)
  show "strip key = key" using n by (rule normalize_props)
  show "lower key = key" using n by (rule normalize_props)
  show "strip value = value" using n by (rule normalize_props)
  show "CHR ''#'' \<notin> set value" using n by (rule normalize_props)
qed

theorem parse_line_splits_at_first_separator_witness:
  "parse_line ''Exit = 9,9 # far corner: x=9'' = Inr (''exit'', ''9,9'')
   \<and> parse_line ''WIDTH : 10'' = Inr (''width'', ''10'')"
proof
  have 1: "CHR ''='' \<notin> set ''Exit ''" by simp
  have 2: "lower (strip ''Exit '') = ''exit''" by code_simp
  have 3: "strip (takeWhile (\<lambda>x. x \<noteq> CHR ''#'') '' 9,9 # far corner: x=9'') = ''9,9''"
    by code_simp
  show "parse_line ''Exit = 9,9 # far corner: x=9'' = Inr (''exit'', ''9,9'')"
    using parse_line_splits_at_first_separator
      [of "''Exit ''" "'' 9,9 # far corner: x=9''"] 1
    unfolding 2 3 by simp
next
  have 1: "CHR ''='' \<notin> set ''WIDTH '' \<and> CHR ''='' \<notin> set '' 10''
           \<and> CHR '':'' \<notin> set ''WIDTH ''" by simp
  have 2: "lower (strip ''WIDTH '') = ''width''" by code_simp
  have 3: "strip (takeWhile (\<lambda>x. x \<noteq> CHR ''#'') '' 10'') = ''10''" by code_simp
  show "parse_line ''WIDTH : 10'' = Inr (''width'', ''10'')"
    using parse_line_splits_at_first_separator
      [of "''WIDTH ''" "'' 10''"] 1
    unfolding 2 3 by simp
qed

subsection \<open>Equal entry and exit\<close>

text \<open>
  Claim C6, as stated, fails: the error of equal entry and exit is the last check, so
  a file whose entry and exit lines set the same pair gets the error of an earlier
  check when another field is missing or invalid, or when the pair lies outside the
  grid.
\<close>

theorem same_entry_exit_counterexample:
  "sets_pair same_cell_no_width ''entry'' = Some (3, 4)
   \<and> sets_pair same_cell_no_width ''exit'' = Some (3, 4)
   \<and> parse (map_of [(''config.txt'', same_cell_no_width)]) ''config.txt''
       = Inl (InvalidDimensionsError ''Width not found in config file'')
   \<and> sets_pair same_cell_outside ''entry'' = Some (5, 5)
   \<and> sets_pair same_cell_outside ''exit'' = Some (5, 5)
   \<and> parse (map_of [(''config.txt'', same_cell_outside)]) ''config.txt''
       = Inl (InvalidCoordinatesError ''Entry (5, 5) is out of bounds (0-2, 0-2)'')"
  by code_simp

text \<open>
  Claim C6, amended. For every existing file whose entry and exit lines set the same
  pair, \<^const>\<open>parse\<close> fails, whatever the other fields are. The error is
  \<^verbatim>\<open>Entry and exit cannot be the same\<close> when every earlier check passes: the file is
  well formed, sets width, height and output file, the width and the height lie from
  1 to 1000, and the pair lies in the grid.
\<close>

theorem same_entry_exit_fails:
  assumes "fs filename = Some lines"
    and "sets_pair lines ''entry'' = Some p" and "sets_pair lines ''exit'' = Some p"
  shows "(\<exists>e. parse fs filename = Inl e)
       \<and> (well_formed lines
            \<and> sets_int lines ''width'' = Some w \<and> sets_int lines ''height'' = Some h
            \<and> last_value lines ''output_file'' = Some out
            \<and> 1 \<le> w \<and> w \<le> 1000 \<and> 1 \<le> h \<and> h \<le> 1000
            \<and> 0 \<le> fst p \<and> fst p < w \<and> 0 \<le> snd p \<and> snd p < h
            \<longrightarrow> parse fs filename
                 = Inl (InvalidCoordinatesError ''Entry and exit cannot be the same''))"
proof
  show "\<exists>e. parse fs filename = Inl e"
  proof (cases "well_formed lines")
    case True
    with assms(1) have "parse fs filename = validate (accumulated lines)"
      by (rule parse_well_formed)
    moreover have "\<exists>e. validate (accumulated lines) = Inl e"
      using assms(2,3) by (intro validate_same [of _ p]) (simp_all add: accumulated_simps)
    ultimately show ?thesis by simp
  next
    case False
    with assms(1) show ?thesis by (rule parse_ill_formed)
  qed
next
  show "well_formed lines
            \<and> sets_int lines ''width'' = Some w \<and> sets_int lines ''height'' = Some h
            \<and> last_value lines ''output_file'' = Some out
            \<and> 1 \<le> w \<and> w \<le> 1000 \<and> 1 \<le> h \<and> h \<le> 1000
            \<and> 0 \<le> fst p \<and> fst p < w \<and> 0 \<le> snd p \<and> snd p < h
            \<longrightarrow> parse fs filename
                 = Inl (InvalidCoordinatesError ''Entry and exit cannot be the same'')"
  proof
    assume h: "well_formed lines
            \<and> sets_int lines ''width'' = Some w \<and> sets_int lines ''height'' = Some h
            \<and> last_value lines ''output_file'' = Some out
            \<and> 1 \<le> w \<and> w \<le> 1000 \<and> 1 \<le> h \<and> h \<le> 1000
            \<and> 0 \<le> fst p \<and> fst p < w \<and> 0 \<le> snd p \<and> snd p < h"
    then have "parse fs filename =
          (if w \<le> 0 then
             Inl (InvalidDimensionsError (''Width must be positive, got '' @ str_int w))
           else if h \<le> 0 then
             Inl (InvalidDimensionsError (''Height must be positive, got'' @ str_int h))
           else if w > 1000 then
             Inl (InvalidDimensionsError (''Width too large (max 1000), got '' @ str_int w))
           else if h > 1000 then
             Inl (InvalidDimensionsError (''Height too large (max 1000), got '' @ str_int h))
           else if fst p < 0 \<or> fst p \<ge> w \<or> snd p < 0 \<or> snd p \<ge> h then
             Inl (InvalidCoordinatesError
                    (''Entry '' @ str_pair p @ '' is out of bounds (0-'' @ str_int (w - 1)
                      @ '', 0-'' @ str_int (h - 1) @ '')''))
           else if fst p < 0 \<or> fst p \<ge> w \<or> snd p < 0 \<or> snd p \<ge> h then
             Inl (InvalidCoordinatesError
                    (''Exit '' @ str_pair p @ '' is out of bounds (0-'' @ str_int (w - 1)
                      @ '', 0-'' @ str_int (h - 1) @ '')''))
           else if p = p then
             Inl (InvalidCoordinatesError ''Entry and exit cannot be the same'')
           else Inr \<lparr>cfg_width = w, cfg_height = h, cfg_entry = p, cfg_exit = p,
                     cfg_output_file = out,
                     cfg_algorithm = (case last_value lines ''algorithm'' of
                                        None \<Rightarrow> ''recursive_backtracking'' | Some v \<Rightarrow> v)\<rparr>)"
      using assms by (intro parse_present [of fs filename]) simp_all
    with h show "parse fs filename
                 = Inl (InvalidCoordinatesError ''Entry and exit cannot be the same'')"
      by simp
  qed
qed

theorem same_entry_exit_fails_witness:
  "parse (map_of [(''config.txt'', same_cell)]) ''config.txt''
     = Inl (InvalidCoordinatesError ''Entry and exit cannot be the same'')"
proof -
  have 1: "map_of [(''config.txt'', same_cell)] ''config.txt'' = Some same_cell" by simp
  have 2: "sets_pair same_cell ''entry'' = Some (3, 4)" by code_simp
  have 3: "sets_pair same_cell ''exit'' = Some (3, 4)" by code_simp
  have 4: "well_formed same_cell" by code_simp
  have 5: "sets_int same_cell ''width'' = Some 10" by code_simp
  have 6: "sets_int same_cell ''height'' = Some 10" by code_simp
  have 7: "last_value same_cell ''output_file'' = Some ''out.txt''" by code_simp
  show ?thesis
    using same_entry_exit_fails
      [of "map_of [(''config.txt'', same_cell)]" "''config.txt''" same_cell "(3, 4)" 10 10
        "''out.txt''", OF 1 2 3]
      4 5 6 7
    by simp
qed

subsection \<open>The output file of a returned record\<close>

text \<open>
  Claim C7, as stated, fails: only the presence of the output file is checked, and a
  line \<^verbatim>\<open>output_file =\<close> with nothing, or only a comment, after the separator sets the
  empty string, which \<^const>\<open>parse\<close> returns.
\<close>

theorem empty_output_file_counterexample:
  "parse (map_of [(''config.txt'', empty_output_file)]) ''config.txt''
     = Inr \<lparr>cfg_width = 10, cfg_height = 10, cfg_entry = (0, 0), cfg_exit = (9, 9),
            cfg_output_file = [], cfg_algorithm = ''recursive_backtracking''\<rparr>"
  by code_simp

text \<open>
  Claim C7, amended. Every record that \<^const>\<open>parse\<close> returns has as its output file the
  value of the last output-file line of the file that was loaded: the field is always
  set by a line, and the string may be empty.
\<close>

theorem returned_output_file_is_set:
  assumes "parse fs filename = Inr r"
  shows "\<exists>lines. fs filename = Some lines
           \<and> last_value lines ''output_file'' = Some (cfg_output_file r)"
proof -
  from assms obtain lines where l: "fs filename = Some lines"
    and v: "validate (accumulated lines) = Inr r"
    by (rule parse_Inr)
  from v have "output_file (accumulated lines) = Some (cfg_output_file r)"
    by (rule validate_Inr)
  then have "last_value lines ''output_file'' = Some (cfg_output_file r)"
    by (simp add: accumulated_simps)
  with l show ?thesis by blast
qed

theorem returned_output_file_is_set_witness:
  "\<exists>lines. map_of [(''config.txt'', scenario)] ''config.txt'' = Some lines
     \<and> last_value lines ''output_file'' = Some ''out.txt''"
proof -
  have 1: "parse (map_of [(''config.txt'', scenario)]) ''config.txt''
     = Inr \<lparr>cfg_width = 10, cfg_height = 10, cfg_entry = (0, 0), cfg_exit = (9, 9),
          cfg_output_file = ''out.txt'', cfg_algorithm = ''recursive_backtracking''\<rparr>"
    by code_simp
  show ?thesis using returned_output_file_is_set [OF 1] by simp
qed

subsection \<open>Loads and the state of the loader\<close>

text \<open>
  Claim C8, as stated, fails for \<^verbatim>\<open>ConfigParser\<close>: its dictionary is created once, in
  \<^verbatim>\<open>__init__\<close>, and \<^verbatim>\<open>parse\<close> only adds to it. When the file at the path has changed
  between two loads on the same object, the second load returns the keys of the first
  load as well, which a fresh loader does not.
\<close>

theorem earlier_load_counterexample:
  "(case fst (ConfigParser_parse (map_of [(''config.txt'', [''height = 5''])])
             (snd (ConfigParser_parse (map_of [(''config.txt'', [''width = 10''])])
                    (ConfigParser_init ''config.txt'')))) of
      Inl e \<Rightarrow> None | Inr d \<Rightarrow> d ''width'') = Some ''10''
   \<and> (case fst (ConfigParser_parse (map_of [(''config.txt'', [''height = 5''])])
             (ConfigParser_init ''config.txt'')) of
      Inl e \<Rightarrow> None | Inr d \<Rightarrow> d ''width'') = None"
  by code_simp

text \<open>
  Claim C8, amended. The result of \<^verbatim>\<open>ConfigParsing.parse\<close> depends only on the content of
  the file that is loaded: two loads of files with the same lines give the same record
  or the same error, and the loader keeps no state. With \<^verbatim>\<open>ConfigParser\<close>, a second load
  of the same content on the same object gives the same result as the first; but the
  dictionary of the earlier loads stays in the object, and a later load returns it
  overridden by the keys of the file (its error, if any, does not depend on it).
\<close>

theorem load_depends_on_content:
  "(fs1 f1 = Some lines \<and> fs2 f2 = Some lines \<longrightarrow> parse fs1 f1 = parse fs2 f2)
   \<and> fst (ConfigParser_parse fs (snd (ConfigParser_parse fs self)))
       = fst (ConfigParser_parse fs self)
   \<and> (fs (filepath self) = Some lines
      \<longrightarrow> fst (ConfigParser_parse fs self)
           = (case fst (ConfigParser_parse fs (ConfigParser_init (filepath self))) of
                Inl e \<Rightarrow> Inl e | Inr d \<Rightarrow> Inr (config self ++ d)))"
proof (intro conjI impI)
  assume "fs1 f1 = Some lines \<and> fs2 f2 = Some lines"
  then show "parse fs1 f1 = parse fs2 f2" by (simp add: parse_def)
next
  show "fst (ConfigParser_parse fs (snd (ConfigParser_parse fs self)))
       = fst (ConfigParser_parse fs self)"
  proof (cases "fs (filepath self)")
    case None
    then show ?thesis by (simp add: ConfigParser_parse_def)
  next
    case (Some ls)
    let ?self' = "self\<lparr>config := snd (cp_loop ls (config self))\<rparr>"
    have s: "snd (ConfigParser_parse fs self) = ?self'"
      using Some by (rule ConfigParser_parse_snd)
    have p: "fs (filepath ?self') = Some ls" using Some by simp
    show ?thesis
      unfolding s ConfigParser_parse_fst [of fs ?self' ls, OF p]
        ConfigParser_parse_fst [of fs self ls, OF Some]
      by (cases "fst (cp_loop ls (config self))") (simp_all add: cp_loop_again)
  qed
next
  assume a: "fs (filepath self) = Some lines"
  have i: "fs (filepath (ConfigParser_init (filepath self))) = Some lines"
    using a by (simp add: ConfigParser_init_def)
  have e: "config (ConfigParser_init (filepath self)) = Map.empty"
    by (simp add: ConfigParser_init_def)
  have l: "cp_loop lines (config self)
    = (fst (cp_loop lines Map.empty), config self ++ snd (cp_loop lines Map.empty))"
    by (rule cp_loop_from_empty)
  show "fst (ConfigParser_parse fs self)
           = (case fst (ConfigParser_parse fs (ConfigParser_init (filepath self))) of
                Inl e \<Rightarrow> Inl e | Inr d \<Rightarrow> Inr (config self ++ d))"
    unfolding ConfigParser_parse_fst [of fs self lines, OF a]
      ConfigParser_parse_fst [of fs "ConfigParser_init (filepath self)" lines, OF i] e l
    by (simp split: option.splits)
qed

theorem load_depends_on_content_witness:
  "parse (map_of [(''a.txt'', scenario), (''b.txt'', scenario)]) ''a.txt''
     = parse (map_of [(''b.txt'', scenario)]) ''b.txt''
   \<and> (case fst (ConfigParser_parse (map_of [(''config.txt'', [''height = 5''])])
             \<lparr>filepath = ''config.txt'', config = [''width'' \<mapsto> ''10'']\<rparr>) of
        Inl e \<Rightarrow> None | Inr d \<Rightarrow> d ''width'') = Some ''10''"
proof
  have 1: "map_of [(''a.txt'', scenario), (''b.txt'', scenario)] ''a.txt'' = Some scenario
           \<and> map_of [(''b.txt'', scenario)] ''b.txt'' = Some scenario"
    by simp
  show "parse (map_of [(''a.txt'', scenario), (''b.txt'', scenario)]) ''a.txt''
     = parse (map_of [(''b.txt'', scenario)]) ''b.txt''"
    using load_depends_on_content
      [of "map_of [(''a.txt'', scenario), (''b.txt'', scenario)]" "''a.txt''" scenario
        "map_of [(''b.txt'', scenario)]" "''b.txt''"] 1
    by blast
next
  let ?self = "\<lparr>filepath = ''config.txt'', config = [''width'' \<mapsto> ''10'']\<rparr>"
  let ?fs = "map_of [(''config.txt'', [''height = 5''])]"
  have 1: "?fs (filepath ?self) = Some [''height = 5'']" by simp
  have 2: "(case fst (ConfigParser_parse ?fs (ConfigParser_init ''config.txt'')) of
              Inl e \<Rightarrow> None | Inr d \<Rightarrow> ([''width'' \<mapsto> ''10''] ++ d) ''width'') = Some ''10''"
    by code_simp
  have "fst (ConfigParser_parse ?fs ?self)
           = (case fst (ConfigParser_parse ?fs (ConfigParser_init (filepath ?self))) of
                Inl e \<Rightarrow> Inl e | Inr d \<Rightarrow> Inr (config ?self ++ d))"
    using load_depends_on_content [of _ _ "[''height = 5'']" _ _ ?fs ?self] 1 by blast
  then show "(case fst (ConfigParser_parse ?fs ?self) of
        Inl e \<Rightarrow> None | Inr d \<Rightarrow> d ''width'') = Some ''10''"
    using 2 by (simp split: sum.splits)
qed

subsection \<open>\<^verbatim>\<open>ConfigParser.parse\<close> accepts the equals sign only\<close>



end
